theory Spec2Isabelle
  imports Complex_Main "HOL-Library.Word" "HOL-Library.Monad_Syntax"
begin

unbundle bit_operations_syntax

section \<open>The image buffers of Go's standard library\<close>

text \<open>
  The program keeps its luminance buffer in an \<^verbatim>\<open>image.Gray\<close>: a byte slice \<^verbatim>\<open>Pix\<close>, a
  row stride and the rectangle of valid coordinates. Go's \<^verbatim>\<open>int\<close> coordinates are modelled
  as unbounded integers (the program only ever adds or subtracts one from a coordinate
  within the bounds), samples as 8-bit words. A run-time panic of the Go program is the
  value \<open>None\<close>.
\<close>

record rectangle =
  minX :: int
  minY :: int
  maxX :: int
  maxY :: int

record gray =
  Pix :: "8 word list"
  Stride :: int
  Rect :: rectangle

definition Dx :: "rectangle \<Rightarrow> int" where
  "Dx r = maxX r - minX r"

definition Dy :: "rectangle \<Rightarrow> int" where
  "Dy r = maxY r - minY r"

text \<open>\<^verbatim>\<open>Point{x, y}.In(r)\<close>\<close>

definition inRect :: "int \<Rightarrow> int \<Rightarrow> rectangle \<Rightarrow> bool" where
  "inRect x y r \<longleftrightarrow> minX r \<le> x \<and> x < maxX r \<and> minY r \<le> y \<and> y < maxY r"

text \<open>\<^verbatim>\<open>(*Gray).PixOffset\<close>\<close>

definition PixOffset :: "gray \<Rightarrow> int \<Rightarrow> int \<Rightarrow> int" where
  "PixOffset p x y = (y - minY (Rect p)) * Stride p + (x - minX (Rect p))"

text \<open>Indexing a slice panics outside \<open>0 \<le> i < len\<close>.\<close>

definition sliceGet :: "'a list \<Rightarrow> int \<Rightarrow> 'a option" where
  "sliceGet xs i = (if 0 \<le> i \<and> i < int (length xs) then Some (xs ! nat i) else None)"

definition sliceSet :: "'a list \<Rightarrow> int \<Rightarrow> 'a \<Rightarrow> 'a list option" where
  "sliceSet xs i v = (if 0 \<le> i \<and> i < int (length xs) then Some (xs[nat i := v]) else None)"

text \<open>
  \<^verbatim>\<open>(*Gray).GrayAt\<close> (which \<^verbatim>\<open>(*Gray).At\<close> returns): the zero colour outside the
  rectangle, the stored sample inside.
\<close>

definition GrayAt :: "gray \<Rightarrow> int \<Rightarrow> int \<Rightarrow> 8 word option" where
  "GrayAt p x y =
     (if \<not> inRect x y (Rect p) then Some 0 else sliceGet (Pix p) (PixOffset p x y))"

text \<open>\<^verbatim>\<open>(*Gray).SetGray\<close>: silently ignores a point outside the rectangle.\<close>

definition SetGray :: "gray \<Rightarrow> int \<Rightarrow> int \<Rightarrow> 8 word \<Rightarrow> gray option" where
  "SetGray p x y c =
     (if \<not> inRect x y (Rect p) then Some p
      else map_option (\<lambda>pix. p\<lparr>Pix := pix\<rparr>) (sliceSet (Pix p) (PixOffset p x y) c))"

text \<open>
  \<^verbatim>\<open>image.NewGray\<close>: a zeroed buffer of \<open>Dx * Dy\<close> samples; it panics on a rectangle with a
  negative side. (It also panics when \<open>Dx * Dy\<close> overflows \<^verbatim>\<open>int\<close>; with unbounded
  integers, and no bound on memory, that case does not arise in the model.)
\<close>

definition NewGray :: "rectangle \<Rightarrow> gray option" where
  "NewGray r =
     (if Dx r < 0 \<or> Dy r < 0 then None
      else Some \<lparr>Pix = replicate (nat (Dx r * Dy r)) 0, Stride = Dx r, Rect = r\<rparr>)"

subsection \<open>Colours and source images\<close>

text \<open>
  A \<^verbatim>\<open>color.Color\<close> is known through its method \<^verbatim>\<open>RGBA()\<close>, which returns four
  alpha-premultiplied 16-bit channels in \<^verbatim>\<open>uint32\<close>s. \<open>GrayColor\<close> is \<^verbatim>\<open>color.Gray\<close>,
  \<open>RGBAColor\<close> is \<^verbatim>\<open>color.RGBA\<close> (8-bit channels), and \<open>OtherColor\<close> stands for any other
  implementation, given by what its \<^verbatim>\<open>RGBA()\<close> returns.
\<close>

datatype color =
    GrayColor "8 word"
  | RGBAColor "8 word" "8 word" "8 word" "8 word"
  | OtherColor "32 word" "32 word" "32 word" "32 word"

text \<open>\<^verbatim>\<open>x := uint32(c); x |= x << 8\<close>\<close>

definition widen :: "8 word \<Rightarrow> 32 word" where
  "widen c = (ucast c) OR (push_bit 8 (ucast c))"

fun RGBA :: "color \<Rightarrow> 32 word \<times> 32 word \<times> 32 word \<times> 32 word" where
  "RGBA (GrayColor y) = (widen y, widen y, widen y, 0xffff)"
| "RGBA (RGBAColor r g b a) = (widen r, widen g, widen b, widen a)"
| "RGBA (OtherColor r g b a) = (r, g, b, a)"

text \<open>
  \<^verbatim>\<open>color.GrayModel.Convert\<close>, as the \<^verbatim>\<open>Y\<close> of the \<^verbatim>\<open>color.Gray\<close> it returns: a
  \<^verbatim>\<open>color.Gray\<close> is returned as it is, any other colour goes through
  \<^verbatim>\<open>(19595*r + 38470*g + 7471*b + 1<<15) >> 24\<close> in \<^verbatim>\<open>uint32\<close> arithmetic.
\<close>

fun grayModel :: "color \<Rightarrow> 8 word" where
  "grayModel (GrayColor y) = y"
| "grayModel c =
     (case RGBA c of (r, g, b, a) \<Rightarrow>
        ucast (drop_bit 24 (19595 * r + 38470 * g + 7471 * b + push_bit 15 1)))"

text \<open>\<^verbatim>\<open>(*Gray).Set\<close>: converts the colour with the gray model and stores its sample.\<close>

definition SetColor :: "gray \<Rightarrow> int \<Rightarrow> int \<Rightarrow> color \<Rightarrow> gray option" where
  "SetColor p x y c =
     (if \<not> inRect x y (Rect p) then Some p
      else map_option (\<lambda>pix. p\<lparr>Pix := pix\<rparr>) (sliceSet (Pix p) (PixOffset p x y) (grayModel c)))"

text \<open>
  An \<^verbatim>\<open>image.Image\<close>, of which the program reads the bounds and the colour at a point.
  The interface has no method that writes. A nil interface value is \<open>None\<close>.
\<close>

record image =
  Bounds :: rectangle
  At :: "int \<Rightarrow> int \<Rightarrow> color"

section \<open>The grayscale converter\<close>

text \<open>
  The state of a call of \<^verbatim>\<open>imageToGrayscale\<close>: the source image and the new buffer. The
  call reads the source through \<^verbatim>\<open>img.At\<close> and writes the buffer through
  \<^verbatim>\<open>result.Set\<close>.

  The inner loop \<^verbatim>\<open>for y := ...; y < bounds.Max.Y; y++\<close>:
\<close>

function grayscaleColumn ::
  "int \<Rightarrow> int \<Rightarrow> int \<Rightarrow> image \<times> gray \<Rightarrow> (image \<times> gray) option" where
  "grayscaleColumn boundsMaxY x y s =
     (if y < boundsMaxY then
        (case s of (img, result) \<Rightarrow>
           (case SetColor result x y (GrayColor (grayModel (At img x y))) of
              None \<Rightarrow> None
            | Some result' \<Rightarrow> grayscaleColumn boundsMaxY x (y + 1) (img, result')))
      else Some s)"
  by pat_completeness auto
termination
  by (relation "measure (\<lambda>(boundsMaxY, x, y, s). nat (boundsMaxY - y))") auto

text \<open>The outer loop \<^verbatim>\<open>for x := ...; x < bounds.Max.X; x++\<close>.\<close>

function grayscaleColumns ::
  "int \<Rightarrow> int \<Rightarrow> int \<Rightarrow> image \<times> gray \<Rightarrow> (image \<times> gray) option" where
  "grayscaleColumns boundsMaxX boundsMaxY x s =
     (if x < boundsMaxX then
        (case grayscaleColumn boundsMaxY x 0 s of
           None \<Rightarrow> None
         | Some s' \<Rightarrow> grayscaleColumns boundsMaxX boundsMaxY (x + 1) s')
      else Some s)"
  by pat_completeness auto
termination
  by (relation "measure (\<lambda>(boundsMaxX, boundsMaxY, x, s). nat (boundsMaxX - x))") auto

text \<open>
  The whole call, from the source image to the source image as the call leaves it and
  the buffer it has filled. Calling \<^verbatim>\<open>img.Bounds()\<close> on a nil image panics.
\<close>

definition imageToGrayscaleState :: "image option \<Rightarrow> (image \<times> gray) option" where
  "imageToGrayscaleState i =
     (case i of
        None \<Rightarrow> None
      | Some img \<Rightarrow>
          do {
            result \<leftarrow> NewGray (Bounds img);
            grayscaleColumns (maxX (Bounds img)) (maxY (Bounds img)) 0 (img, result)
          })"

text \<open>What the call returns: the buffer.\<close>

definition imageToGrayscale :: "image option \<Rightarrow> gray option" where
  "imageToGrayscale i = map_option snd (imageToGrayscaleState i)"

section \<open>The error-diffusion ditherer\<close>

text \<open>
  The constants of \<^verbatim>\<open>main.go\<close>. In Go \<^verbatim>\<open>1 / 16\<close> is a quotient of untyped integer
  constants, hence an integer constant; it becomes a \<^verbatim>\<open>float64\<close> only where it is passed
  to \<^verbatim>\<open>addErrorContrib\<close>.
\<close>

definition threshold :: "8 word" where
  "threshold = 127"

definition oneSixteenth :: int where
  "oneSixteenth = 1 div 16"

definition threeSixteenths :: int where
  "threeSixteenths = 3 div 16"

definition fiveSixteenths :: int where
  "fiveSixteenths = 5 div 16"

definition sevenSixteenths :: int where
  "sevenSixteenths = 7 div 16"

text \<open>
  \<^verbatim>\<open>float64\<close> values are modelled by rationals: the residual is a difference of two
  integers in \<open>[0, 255]\<close>, and its product with a multiple of \<open>1/16\<close> is exact in binary
  floating point. Go's conversion \<^verbatim>\<open>int(f)\<close> drops the fraction (truncation toward zero).
\<close>

type_synonym float64 = rat

definition goInt :: "float64 \<Rightarrow> int" where
  "goInt f = (if 0 \<le> f then \<lfloor>f\<rfloor> else \<lceil>f\<rceil>)"

text \<open>
  The state of the pass: the buffer and, as a ghost trace, the coordinates of every
  \<^verbatim>\<open>SetGray\<close> call the program has issued, in order.
\<close>

type_synonym trace = "(int \<times> int) list"

definition addErrorContrib ::
  "gray \<times> trace \<Rightarrow> int \<Rightarrow> int \<Rightarrow> float64 \<Rightarrow> float64 \<Rightarrow> (gray \<times> trace) option" where
  "addErrorContrib s x y errVal perc =
     (case s of (img, ws) \<Rightarrow>
        do {
          v \<leftarrow> GrayAt img x y;
          img' \<leftarrow> SetGray img x y (word_of_int (uint v + goInt (errVal * perc)));
          Some (img', ws @ [(x, y)])
        })"

text \<open>The body of the inner loop of \<^verbatim>\<open>errorDiffusionDither\<close>, for the pixel \<open>(x, y)\<close>.\<close>

definition ditherPixel ::
  "8 word \<Rightarrow> 8 word \<Rightarrow> int \<Rightarrow> int \<Rightarrow> int \<Rightarrow> int \<Rightarrow> gray \<times> trace \<Rightarrow> (gray \<times> trace) option" where
  "ditherPixel low high xLim yLim x y s =
     (case s of (img, ws) \<Rightarrow>
        do {
          pixVal \<leftarrow> GrayAt img x y;
          let dithVal = (if pixVal > threshold then high else low);
          img1 \<leftarrow> SetGray img x y dithVal;
          let s1 = (img1, ws @ [(x, y)]);
          let dithErr = (of_int (uint pixVal) - of_int (uint dithVal) :: float64);
          s2 \<leftarrow> (if x < xLim then
                   do {
                     t \<leftarrow> addErrorContrib s1 (x + 1) y dithErr (of_int sevenSixteenths);
                     if y < yLim
                     then addErrorContrib t (x + 1) (y + 1) dithErr (of_int oneSixteenth)
                     else Some t
                   }
                 else Some s1);
          if y < yLim then
            do {
              t \<leftarrow> addErrorContrib s2 x (y + 1) dithErr (of_int fiveSixteenths);
              if x > 0
              then addErrorContrib t (x - 1) (y + 1) dithErr (of_int threeSixteenths)
              else Some t
            }
          else Some s2
        })"

text \<open>The inner loop \<^verbatim>\<open>for x := ...; x < width; x++\<close>, entered at column \<open>x\<close>.\<close>

function ditherRow ::
  "8 word \<Rightarrow> 8 word \<Rightarrow> int \<Rightarrow> int \<Rightarrow> int \<Rightarrow> int \<Rightarrow> int \<Rightarrow> gray \<times> trace \<Rightarrow> (gray \<times> trace) option" where
  "ditherRow low high xLim yLim width y x s =
     (if x < width then
        (case ditherPixel low high xLim yLim x y s of
           None \<Rightarrow> None
         | Some s' \<Rightarrow> ditherRow low high xLim yLim width y (x + 1) s')
      else Some s)"
  by pat_completeness auto
termination
  by (relation "measure (\<lambda>(low, high, xLim, yLim, width, y, x, s). nat (width - x))") auto

text \<open>The outer loop \<^verbatim>\<open>for y := ...; y < height; y++\<close>, entered at row \<open>y\<close>.\<close>

function ditherRows ::
  "8 word \<Rightarrow> 8 word \<Rightarrow> int \<Rightarrow> int \<Rightarrow> int \<Rightarrow> int \<Rightarrow> int \<Rightarrow> gray \<times> trace \<Rightarrow> (gray \<times> trace) option" where
  "ditherRows low high xLim yLim width height y s =
     (if y < height then
        (case ditherRow low high xLim yLim width y 0 s of
           None \<Rightarrow> None
         | Some s' \<Rightarrow> ditherRows low high xLim yLim width height (y + 1) s')
      else Some s)"
  by pat_completeness auto
termination
  by (relation "measure (\<lambda>(low, high, xLim, yLim, width, height, y, s). nat (height - y))") auto

definition errorDiffusionDither :: "gray \<Rightarrow> bool \<Rightarrow> (gray \<times> trace) option" where
  "errorDiffusionDither img invert =
     (let width = maxX (Rect img);
          height = maxY (Rect img);
          xLim = width - 1;
          yLim = height - 1;
          low = (if invert then 255 else 0);
          high = (if invert then 0 else 255)
      in ditherRows low high xLim yLim width height 0 (img, []))"

section \<open>The command line program\<close>

text \<open>
  What the run leaves behind: the lines written to standard error, the calls of
  \<^verbatim>\<open>saveImage\<close> (image, file, format) and how the process ended. A Go process that
  returns from \<^verbatim>\<open>main\<close> exits with status 0, one that calls \<^verbatim>\<open>os.Exit(n)\<close> with
  status \<open>n\<close>, and one that dies of a panic with status 2.
\<close>

datatype message = ErrorLine string | UsageText

datatype ending = Returned | Exited int | Panicked

fun exitStatus :: "ending \<Rightarrow> int" where
  "exitStatus Returned = 0"
| "exitStatus (Exited n) = n"
| "exitStatus Panicked = 2"

record run =
  stderr :: "message list"
  saveCalls :: "(gray \<times> string \<times> string) list"
  ending :: ending

text \<open>
  The file system and the codecs, as the program meets them: \<^verbatim>\<open>os.Open\<close> gives an error
  or the content of the file, \<^verbatim>\<open>image.Decode\<close> an error (with a nil image) or an image
  and the name of its format, \<^verbatim>\<open>os.Create\<close> and the three encoders an error or none.
\<close>

record world =
  osOpen :: "string \<Rightarrow> string + 8 word list"
  imageDecode :: "8 word list \<Rightarrow> string + image \<times> string"
  osCreate :: "string \<Rightarrow> string option"
  imageEncode :: "string \<Rightarrow> gray \<Rightarrow> string option"

record config =
  inFile :: string
  outFile :: string
  invert :: bool

text \<open>The command line after \<^verbatim>\<open>flag.Parse\<close>: the two flags and the other arguments.\<close>

record flags =
  flagO :: string
  flagI :: bool
  args :: "string list"

text \<open>
  \<^verbatim>\<open>filepath.Ext\<close>: the suffix from the last dot of the last path element, empty if
  there is none.
\<close>

fun extFrom :: "string \<Rightarrow> string \<Rightarrow> string" where
  "extFrom [] acc = []"
| "extFrom (c # cs) acc =
     (if c = CHR ''/'' then []
      else if c = CHR ''.'' then c # acc
      else extFrom cs (c # acc))"

definition Ext :: "string \<Rightarrow> string" where
  "Ext path = extFrom (rev path) []"

definition buildConfigFromArgs :: "flags \<Rightarrow> string + config" where
  "buildConfigFromArgs fl =
     (if length (args fl) = 0 then Inl ''no input image specified''
      else
        let inFile = hd (args fl);
            outFile = (if length (Ext (flagO fl)) = 0 then flagO fl @ Ext inFile else flagO fl)
        in Inr \<lparr>inFile = inFile, outFile = outFile, invert = flagI fl\<rparr>)"

definition loadImage :: "world \<Rightarrow> string \<Rightarrow> string + image \<times> string" where
  "loadImage w file =
     (case osOpen w file of
        Inl err \<Rightarrow> Inl err
      | Inr reader \<Rightarrow> imageDecode w reader)"

definition saveImage :: "world \<Rightarrow> gray \<Rightarrow> string \<Rightarrow> string \<Rightarrow> string option" where
  "saveImage w img file format =
     (case osCreate w file of
        Some err \<Rightarrow> Some err
      | None \<Rightarrow>
          if format = ''gif'' \<or> format = ''jpeg'' \<or> format = ''png'' then imageEncode w format img
          else Some (''unknown image format '' @ [CHR 0xC3, CHR 0x82, CHR 0xC2, CHR 0xBB] @ '' '' @ format))"

text \<open>
  \<^verbatim>\<open>main\<close>. After a failed \<^verbatim>\<open>loadImage\<close> the error is printed and the run goes on with
  the nil image and the empty format name that \<^verbatim>\<open>loadImage\<close> returned.
\<close>

definition main :: "world \<Rightarrow> flags \<Rightarrow> run" where
  "main w fl =
     (case buildConfigFromArgs fl of
        Inl err \<Rightarrow> \<lparr>stderr = [ErrorLine err, UsageText], saveCalls = [], ending = Exited 1\<rparr>
      | Inr cfg \<Rightarrow>
          let (inImg, inFormat, printed) =
                (case loadImage w (inFile cfg) of
                   Inl err \<Rightarrow> (None, [], [ErrorLine err])
                 | Inr (img, format) \<Rightarrow> (Some img, format, []))
          in
            (case imageToGrayscale inImg of
               None \<Rightarrow> \<lparr>stderr = printed, saveCalls = [], ending = Panicked\<rparr>
             | Some grayImg \<Rightarrow>
                 (case errorDiffusionDither grayImg (invert cfg) of
                    None \<Rightarrow> \<lparr>stderr = printed, saveCalls = [], ending = Panicked\<rparr>
                  | Some (dithered, ws) \<Rightarrow>
                      (case saveImage w dithered (outFile cfg) inFormat of
                         Some err \<Rightarrow>
                           \<lparr>stderr = printed @ [ErrorLine err],
                            saveCalls = [(dithered, outFile cfg, inFormat)],
                            ending = Exited 1\<rparr>
                       | None \<Rightarrow>
                           \<lparr>stderr = printed,
                            saveCalls = [(dithered, outFile cfg, inFormat)],
                            ending = Returned\<rparr>))))"

section \<open>Buffers and specification-level notions\<close>

text \<open>
  The luminance buffers of the specification: width \<open>W = maxX\<close>, height \<open>H = maxY\<close>, both
  non-negative, coordinates \<open>[0, W) \<times> [0, H)\<close>, one sample per pixel in rows of \<open>W\<close>. These
  are the buffers \<^verbatim>\<open>image.NewGray\<close> makes for a rectangle at the origin.
\<close>

definition wfGray :: "gray \<Rightarrow> bool" where
  "wfGray p \<longleftrightarrow>
     minX (Rect p) = 0 \<and> minY (Rect p) = 0 \<and> 0 \<le> maxX (Rect p) \<and> 0 \<le> maxY (Rect p) \<and>
     Stride p = maxX (Rect p) \<and> int (length (Pix p)) = maxX (Rect p) * maxY (Rect p)"

text \<open>The quantisation decision of the ditherer, and its application to a range of indices.\<close>

definition quantize :: "8 word \<Rightarrow> 8 word \<Rightarrow> 8 word \<Rightarrow> 8 word" where
  "quantize low high v = (if v > threshold then high else low)"

definition quantRange :: "('a \<Rightarrow> 'a) \<Rightarrow> nat \<Rightarrow> nat \<Rightarrow> 'a list \<Rightarrow> 'a list" where
  "quantRange q a b pix = map (\<lambda>i. if a \<le> i \<and> i < b then q (pix ! i) else pix ! i) [0..<length pix]"

text \<open>The coordinates \<^verbatim>\<open>ditherPixel\<close> writes at \<open>(x, y)\<close>, in the order of the program.\<close>

definition pixelWrites :: "int \<Rightarrow> int \<Rightarrow> int \<Rightarrow> int \<Rightarrow> trace" where
  "pixelWrites xLim yLim x y =
     [(x, y)] @ (if x < xLim then (x + 1, y) # (if y < yLim then [(x + 1, y + 1)] else []) else [])
     @ (if y < yLim then (x, y + 1) # (if x > 0 then [(x - 1, y + 1)] else []) else [])"

text \<open>
  The two output levels of the specification: \<open>(low, high) = (0, 255)\<close>, swapped when the
  invert flag is set; the pointwise threshold map at 127; the exchange of 0 and 255.
\<close>

definition sentinelLow :: "bool \<Rightarrow> 8 word" where
  "sentinelLow invertFlag = (if invertFlag then 255 else 0)"

definition sentinelHigh :: "bool \<Rightarrow> 8 word" where
  "sentinelHigh invertFlag = (if invertFlag then 0 else 255)"

definition thresholdMap :: "bool \<Rightarrow> 8 word list \<Rightarrow> 8 word list" where
  "thresholdMap invertFlag pix =
     map (\<lambda>v. if 127 < v then sentinelHigh invertFlag else sentinelLow invertFlag) pix"

definition swapSentinels :: "8 word \<Rightarrow> 8 word" where
  "swapSentinels v = (if v = 0 then 255 else if v = 255 then 0 else v)"

text \<open>
  The neighbours of \<open>(x, y)\<close> under the guards of the specification: \<open>x + 1 < W\<close> for
  \<open>(x + 1, y)\<close> and \<open>(x + 1, y + 1)\<close>, \<open>y + 1 < H\<close> for the row below, \<open>x - 1 \<ge> 0\<close> for
  \<open>(x - 1, y + 1)\<close>.
\<close>

definition guardedNeighbours :: "int \<Rightarrow> int \<Rightarrow> int \<Rightarrow> int \<Rightarrow> trace" where
  "guardedNeighbours W H x y =
     (if x + 1 < W then [(x + 1, y)] else []) @
     (if x + 1 < W \<and> y + 1 < H then [(x + 1, y + 1)] else []) @
     (if y + 1 < H then [(x, y + 1)] else []) @
     (if x - 1 \<ge> 0 \<and> y + 1 < H then [(x - 1, y + 1)] else [])"


text \<open>The 2\<times>2 buffer of the specification's scenario, and a 3\<times>3 buffer of uniform value 200.\<close>

definition scenarioBuffer :: gray where
  "scenarioBuffer =
     \<lparr>Pix = [200, 50, 50, 200], Stride = 2, Rect = \<lparr>minX = 0, minY = 0, maxX = 2, maxY = 2\<rparr>\<rparr>"

definition uniformBuffer :: gray where
  "uniformBuffer =
     \<lparr>Pix = replicate 9 200, Stride = 3, Rect = \<lparr>minX = 0, minY = 0, maxX = 3, maxY = 3\<rparr>\<rparr>"

text \<open>The source images of the specification: bounds at the origin, \<open>W, H \<ge> 0\<close>.\<close>

definition wfImage :: "image \<Rightarrow> bool" where
  "wfImage i \<longleftrightarrow>
     minX (Bounds i) = 0 \<and> minY (Bounds i) = 0 \<and> 0 \<le> maxX (Bounds i) \<and> 0 \<le> maxY (Bounds i)"

text \<open>
  The conversion formula of the specification: \<open>Y = 0.299 R + 0.587 G + 0.114 B\<close>, rounded to
  the nearest integer and clamped to \<open>[0, 255]\<close>.
\<close>

definition luma601 :: "int \<Rightarrow> int \<Rightarrow> int \<Rightarrow> int" where
  "luma601 r g b =
     max 0 (min 255 (round (0.299 * of_int r + 0.587 * of_int g + 0.114 * of_int b :: rat)))"

text \<open>
  Inputs for the examples: a row of a red, a green and a blue pixel; an image and a buffer
  of width 0; a file system whose input file does not decode; a command line.
\<close>

definition primariesImage :: image where
  "primariesImage =
     \<lparr>Bounds = \<lparr>minX = 0, minY = 0, maxX = 3, maxY = 1\<rparr>,
      At = (\<lambda>x y. if x = 0 then RGBAColor 255 0 0 255
                   else if x = 1 then RGBAColor 0 255 0 255
                   else RGBAColor 0 0 255 255)\<rparr>"

definition emptyImage :: image where
  "emptyImage = \<lparr>Bounds = \<lparr>minX = 0, minY = 0, maxX = 0, maxY = 3\<rparr>, At = (\<lambda>x y. GrayColor 0)\<rparr>"

definition emptyBuffer :: gray where
  "emptyBuffer = \<lparr>Pix = [], Stride = 0, Rect = \<lparr>minX = 0, minY = 0, maxX = 0, maxY = 3\<rparr>\<rparr>"

definition undecodableWorld :: world where
  "undecodableWorld =
     \<lparr>osOpen = (\<lambda>file. Inr [0x47, 0x49]),
      imageDecode = (\<lambda>bytes. Inl ''image: unknown format''),
      osCreate = (\<lambda>file. None),
      imageEncode = (\<lambda>format img. None)\<rparr>"

definition someFlags :: flags where
  "someFlags = \<lparr>flagO = ''out'', flagI = False, args = [''in.gif'']\<rparr>"

section \<open>Access to well-formed buffers\<close>

declare ditherRow.simps [simp del] ditherRows.simps [simp del]
  grayscaleColumn.simps [simp del] grayscaleColumns.simps [simp del]

lemma offset_bounds:
  fixes x y w h :: int
  assumes "0 \<le> x" "x < w" "0 \<le> y" "y < h"
  shows "0 \<le> y * w + x" and "y * w + x < w * h"
proof -
  show "0 \<le> y * w + x" using assms by simp
  have "y + 1 \<le> h" using assms by simp
  then have "(y + 1) * w \<le> h * w" using assms by (intro mult_right_mono) auto
  then show "y * w + x < w * h" using assms by (simp add: algebra_simps)
qed

lemma GrayAt_in:
  assumes "wfGray p" "inRect x y (Rect p)"
  shows "GrayAt p x y = Some (Pix p ! nat (y * maxX (Rect p) + x))"
  using assms offset_bounds[of x "maxX (Rect p)" y "maxY (Rect p)"]
  by (simp add: GrayAt_def wfGray_def inRect_def PixOffset_def sliceGet_def)

lemma SetGray_in:
  assumes "wfGray p" "inRect x y (Rect p)"
  shows "SetGray p x y c = Some (p\<lparr>Pix := (Pix p)[nat (y * maxX (Rect p) + x) := c]\<rparr>)"
  using assms offset_bounds[of x "maxX (Rect p)" y "maxY (Rect p)"]
  by (simp add: SetGray_def wfGray_def inRect_def PixOffset_def sliceSet_def)

lemma wfGray_Pix_update:
  "wfGray p \<Longrightarrow> length pix = length (Pix p) \<Longrightarrow> wfGray (p\<lparr>Pix := pix\<rparr>)"
  by (simp add: wfGray_def)

lemma goInt_zero: "goInt 0 = 0"
  by (simp add: goInt_def)

lemma addErrorContrib_zero:
  assumes "wfGray img"
  shows "addErrorContrib (img, ws) x y e 0 = Some (img, ws @ [(x, y)])"
proof (cases "inRect x y (Rect img)")
  case True
  then show ?thesis using assms
    by (simp add: addErrorContrib_def GrayAt_in SetGray_in goInt_zero)
next
  case False
  then show ?thesis
    by (simp add: addErrorContrib_def GrayAt_def SetGray_def)
qed

lemma weights_zero:
  "(of_int oneSixteenth :: rat) = 0" "(of_int threeSixteenths :: rat) = 0"
  "(of_int fiveSixteenths :: rat) = 0" "(of_int sevenSixteenths :: rat) = 0"
  by (simp_all add: oneSixteenth_def threeSixteenths_def fiveSixteenths_def sevenSixteenths_def)

lemma ditherPixel_eq:
  assumes "wfGray img" "inRect x y (Rect img)"
  shows "ditherPixel low high xLim yLim x y (img, ws) =
    Some (img\<lparr>Pix := (Pix img)[nat (y * maxX (Rect img) + x) :=
              quantize low high (Pix img ! nat (y * maxX (Rect img) + x))]\<rparr>,
          ws @ pixelWrites xLim yLim x y)"
proof -
  show ?thesis
    using assms
    by (simp add: ditherPixel_def GrayAt_in SetGray_in weights_zero
        addErrorContrib_zero wfGray_Pix_update quantize_def pixelWrites_def Let_def)
qed


lemma quantRange_empty: "b \<le> a \<Longrightarrow> quantRange q a b pix = pix"
  by (auto simp: quantRange_def intro!: nth_equalityI)

lemma quantRange_step:
  assumes "k < b" "k < length pix"
  shows "quantRange q (Suc k) b (pix[k := q (pix ! k)]) = quantRange q k b pix"
  using assms by (auto simp: quantRange_def nth_list_update intro!: nth_equalityI)

lemma quantRange_join:
  assumes "a \<le> b" "b \<le> c"
  shows "quantRange q b c (quantRange q a b pix) = quantRange q a c pix"
  using assms by (auto simp: quantRange_def intro!: nth_equalityI)

lemma quantRange_all: "quantRange q 0 (length pix) pix = map q pix"
  by (auto simp: quantRange_def intro!: nth_equalityI)

lemma length_quantRange: "length (quantRange q a b pix) = length pix"
  by (simp add: quantRange_def)

lemma pixelWrites_inRect:
  assumes "inRect x y r" "minX r = 0" "p \<in> set (pixelWrites (maxX r - 1) (maxY r - 1) x y)"
  shows "inRect (fst p) (snd p) r"
  using assms by (auto simp: pixelWrites_def inRect_def split: if_splits)

lemma ditherRow_eq:
  assumes "wfGray (fst s)" "width = maxX (Rect (fst s))" "xLim = width - 1"
    "yLim = maxY (Rect (fst s)) - 1" "0 \<le> y" "y < maxY (Rect (fst s))" "0 \<le> x" "x \<le> width"
  shows "\<exists>ws'. ditherRow low high xLim yLim width y x s =
           Some ((fst s)\<lparr>Pix := quantRange (quantize low high) (nat (y * width + x))
                   (nat (y * width + width)) (Pix (fst s))\<rparr>, snd s @ ws')
         \<and> (\<forall>p \<in> set ws'. inRect (fst p) (snd p) (Rect (fst s)))"
  using assms
proof (induction low high xLim yLim width y x s rule: ditherRow.induct)
  case (1 low high xLim yLim width y x s)
  obtain img ws where s: "s = (img, ws)" by (cases s)
  show ?case
  proof (cases "x < width")
    case False
    with "1.prems" have "x = width" by simp
    then show ?thesis
      by (subst ditherRow.simps) (simp add: s quantRange_empty)
  next
    case True
    let ?k = "nat (y * width + x)"
    let ?img1 = "img\<lparr>Pix := (Pix img)[?k := quantize low high (Pix img ! ?k)]\<rparr>"
    let ?s1 = "(?img1, ws @ pixelWrites xLim yLim x y)"
    have inr: "inRect x y (Rect img)"
      using True "1.prems" by (simp add: s inRect_def wfGray_def)
    have step: "ditherPixel low high xLim yLim x y s = Some ?s1"
      using "1.prems" inr by (simp add: s ditherPixel_eq)
    have wf1: "wfGray ?img1" using "1.prems" by (simp add: s wfGray_Pix_update)
    have klen: "?k < length (Pix img)"
      using offset_bounds[of x width y "maxY (Rect img)"] True "1.prems"
      by (simp add: s wfGray_def nat_less_iff)
    have yw: "0 \<le> y * width"
      using True "1.prems" by (intro mult_nonneg_nonneg) auto
    have kb: "?k < nat (y * width + width)"
      using True "1.prems"(7) yw unfolding zless_nat_conj by linarith
    have suc: "nat (y * width + (x + 1)) = Suc ?k"
      using "1.prems"(7) yw by (simp only: Suc_nat_eq_nat_zadd1 add.assoc add_nonneg_nonneg) 
    from "1.IH"[OF True step] wf1 "1.prems" True
    obtain ws' where
      r: "ditherRow low high xLim yLim width y (x + 1) ?s1 =
            Some (?img1\<lparr>Pix := quantRange (quantize low high) (nat (y * width + (x + 1)))
                   (nat (y * width + width)) (Pix ?img1)\<rparr>, snd ?s1 @ ws')"
      and t: "\<forall>p \<in> set ws'. inRect (fst p) (snd p) (Rect ?img1)"
      by (auto simp: s)
    have pw: "\<forall>p \<in> set (pixelWrites xLim yLim x y). inRect (fst p) (snd p) (Rect img)"
      using pixelWrites_inRect[OF inr] "1.prems" by (simp add: s wfGray_def)
    have "ditherRow low high xLim yLim width y x s =
            ditherRow low high xLim yLim width y (x + 1) ?s1"
      using True step by (subst ditherRow.simps) simp
    also have "\<dots> = Some (img\<lparr>Pix := quantRange (quantize low high) ?k
                   (nat (y * width + width)) (Pix img)\<rparr>, ws @ (pixelWrites xLim yLim x y @ ws'))"
      using r by (simp add: suc quantRange_step[OF kb klen])
    finally show ?thesis using t pw by (auto simp: s)
  qed
qed


lemma ditherRows_eq:
  assumes "wfGray (fst s)" "width = maxX (Rect (fst s))" "height = maxY (Rect (fst s))"
    "xLim = width - 1" "yLim = height - 1" "0 \<le> y" "y \<le> height"
  shows "\<exists>ws'. ditherRows low high xLim yLim width height y s =
           Some ((fst s)\<lparr>Pix := quantRange (quantize low high) (nat (y * width))
                   (nat (height * width)) (Pix (fst s))\<rparr>, snd s @ ws')
         \<and> (\<forall>p \<in> set ws'. inRect (fst p) (snd p) (Rect (fst s)))"
  using assms
proof (induction low high xLim yLim width height y s rule: ditherRows.induct)
  case (1 low high xLim yLim width height y s)
  obtain img ws where s: "s = (img, ws)" by (cases s)
  have w0: "0 \<le> width" using "1.prems" by (simp add: wfGray_def)
  show ?case
  proof (cases "y < height")
    case False
    with "1.prems" have "y = height" by simp
    then show ?thesis
      by (subst ditherRows.simps) (simp add: s quantRange_empty)
  next
    case True
    let ?a = "nat (y * width)"
    let ?b = "nat ((y + 1) * width)"
    let ?c = "nat (height * width)"
    let ?q = "quantize low high"
    let ?img1 = "img\<lparr>Pix := quantRange ?q ?a ?b (Pix img)\<rparr>"
    have b_eq: "y * width + width = (y + 1) * width"
      by (simp add: algebra_simps)
    have pre: "wfGray (fst s)" "width = maxX (Rect (fst s))" "xLim = width - 1"
      "yLim = maxY (Rect (fst s)) - 1" "0 \<le> y" "y < maxY (Rect (fst s))"
      using "1.prems" True by simp_all
    have z: "(0::int) \<le> 0" by simp
    from ditherRow_eq[OF pre z w0, of low high]
    obtain ws1 where
      row: "ditherRow low high xLim yLim width y 0 s = Some (?img1, ws @ ws1)"
      and t1: "\<forall>p \<in> set ws1. inRect (fst p) (snd p) (Rect img)"
      unfolding s fst_conv snd_conv add_0_right b_eq by blast
    have wf1: "wfGray (fst (?img1, ws @ ws1))"
      using "1.prems"(1) by (simp add: s wfGray_Pix_update length_quantRange)
    have pre1: "width = maxX (Rect (fst (?img1, ws @ ws1)))"
      "height = maxY (Rect (fst (?img1, ws @ ws1)))" "0 \<le> y + 1" "y + 1 \<le> height"
      using "1.prems" True by (simp_all add: s)
    from "1.IH"[OF True row wf1 pre1(1,2) "1.prems"(4,5) pre1(3,4)]
    obtain ws2 where
      r: "ditherRows low high xLim yLim width height (y + 1) (?img1, ws @ ws1) =
            Some (?img1\<lparr>Pix := quantRange ?q ?b ?c (Pix ?img1)\<rparr>, (ws @ ws1) @ ws2)"
      and t2: "\<forall>p \<in> set ws2. inRect (fst p) (snd p) (Rect ?img1)"
      unfolding fst_conv snd_conv by blast
    have ab: "?a \<le> ?b"
      using w0 "1.prems"(6) by (intro nat_mono mult_right_mono) auto
    have bc: "?b \<le> ?c"
      using w0 True by (intro nat_mono mult_right_mono) auto
    have "ditherRows low high xLim yLim width height y s =
            ditherRows low high xLim yLim width height (y + 1) (?img1, ws @ ws1)"
      using True row by (subst ditherRows.simps) simp
    also have "\<dots> = Some (img\<lparr>Pix := quantRange ?q ?a ?c (Pix img)\<rparr>, ws @ (ws1 @ ws2))"
      using r by (simp add: quantRange_join[OF ab bc])
    finally show ?thesis using t1 t2 by (auto simp: s)
  qed
qed

section \<open>The pass as a whole\<close>

lemma errorDiffusionDither_eq:
  assumes "wfGray img"
  shows "\<exists>ws. errorDiffusionDither img invertFlag =
           Some (img\<lparr>Pix := map (quantize (if invertFlag then 255 else 0) (if invertFlag then 0 else 255))
                   (Pix img)\<rparr>, ws)
         \<and> (\<forall>p \<in> set ws. inRect (fst p) (snd p) (Rect img))"
proof -
  let ?W = "maxX (Rect img)" and ?H = "maxY (Rect img)"
  let ?low = "if invertFlag then 255 else 0 :: 8 word"
  let ?high = "if invertFlag then 0 else 255 :: 8 word"
  have len: "nat (?H * ?W) = length (Pix img)"
    using assms by (simp add: wfGray_def mult.commute nat_eq_iff)
  have h0: "0 \<le> ?H" using assms by (simp add: wfGray_def)
  have wf0: "wfGray (fst (img, []::trace))" using assms by simp
  have z: "(0::int) \<le> 0" by simp
  have h0': "0 \<le> maxY (Rect (fst (img, []::trace)))" using h0 by simp
  from ditherRows_eq[OF wf0 refl refl refl refl z h0', of ?low ?high]
  obtain ws where
    r: "ditherRows ?low ?high (?W - 1) (?H - 1) ?W ?H 0 (img, []) =
          Some (img\<lparr>Pix := quantRange (quantize ?low ?high) 0 (nat (?H * ?W)) (Pix img)\<rparr>, ws)"
    and t: "\<forall>p \<in> set ws. inRect (fst p) (snd p) (Rect img)"
    unfolding fst_conv snd_conv append_Nil mult_zero_left nat_0 by blast
  have "errorDiffusionDither img invertFlag =
          ditherRows ?low ?high (?W - 1) (?H - 1) ?W ?H 0 (img, [])"
    by (simp only: errorDiffusionDither_def Let_def)
  also have "\<dots> = Some (img\<lparr>Pix := map (quantize ?low ?high) (Pix img)\<rparr>, ws)"
    by (simp only: r len quantRange_all)
  finally show ?thesis using t by blast
qed


lemma quantize_sentinels:
  "quantize (if invertFlag then 255 else 0) (if invertFlag then 0 else 255) =
     (\<lambda>v. if 127 < v then sentinelHigh invertFlag else sentinelLow invertFlag)"
  by (rule ext) (simp add: quantize_def threshold_def sentinelLow_def sentinelHigh_def)

lemma swap_quantize:
  "swapSentinels (quantize 255 0 v) = quantize 0 255 v"
  by (simp add: swapSentinels_def quantize_def)

lemma pixelWrites_guarded:
  "pixelWrites (W - 1) (H - 1) x y = (x, y) # guardedNeighbours W H x y"
  by (simp add: pixelWrites_def guardedNeighbours_def)

section \<open>The converter as a whole\<close>

lemma NewGray_wf:
  assumes "wfImage src"
  shows "\<exists>g. NewGray (Bounds src) = Some g \<and> wfGray g \<and> Rect g = Bounds src \<and>
           Pix g = replicate (nat (maxX (Bounds src) * maxY (Bounds src))) 0"
  using assms by (simp add: NewGray_def wfImage_def wfGray_def Dx_def Dy_def)

lemma SetColor_in:
  assumes "wfGray p" "inRect x y (Rect p)"
  shows "SetColor p x y c = Some (p\<lparr>Pix := (Pix p)[nat (y * maxX (Rect p) + x) := grayModel c]\<rparr>)"
  using assms offset_bounds[of x "maxX (Rect p)" y "maxY (Rect p)"]
  by (simp add: SetColor_def wfGray_def inRect_def PixOffset_def sliceSet_def)

lemma offset_inj:
  fixes x y a b w :: int
  assumes "0 \<le> x" "x < w" "0 \<le> a" "a < w" "b * w + a = y * w + x"
  shows "a = x \<and> b = y"
proof -
  have m: "(b * w + a) mod w = a" "(y * w + x) mod w = x"
    using assms(1-4) by simp_all
  have ax: "a = x"
    using m unfolding assms(5) by simp
  have d: "(b * w + a) div w = b" "(y * w + x) div w = y"
    using assms(1-4) by simp_all
  have "b = y"
    using d unfolding assms(5) by simp
  with ax show ?thesis by simp
qed

lemma nat_offset_eq_iff:
  assumes "wfGray g" "inRect a b (Rect g)" "inRect x y (Rect g)"
  shows "nat (b * maxX (Rect g) + a) = nat (y * maxX (Rect g) + x) \<longleftrightarrow> a = x \<and> b = y"
proof -
  have "0 \<le> b * maxX (Rect g) + a" "0 \<le> y * maxX (Rect g) + x"
    using assms by (simp_all add: wfGray_def inRect_def)
  then have "nat (b * maxX (Rect g) + a) = nat (y * maxX (Rect g) + x) \<longleftrightarrow>
               b * maxX (Rect g) + a = y * maxX (Rect g) + x"
    by (simp add: nat_eq_iff)
  also have "\<dots> \<longleftrightarrow> a = x \<and> b = y"
    using offset_inj[of x "maxX (Rect g)" a b y] assms
    by (auto simp: wfGray_def inRect_def)
  finally show ?thesis .
qed

lemma grayscaleColumn_eq:
  assumes "wfGray (snd s)" "H = maxY (Rect (snd s))" "0 \<le> x" "x < maxX (Rect (snd s))"
    "0 \<le> y" "y \<le> H"
  shows "\<exists>g'. grayscaleColumn H x y s = Some (fst s, g') \<and> wfGray g' \<and> Rect g' = Rect (snd s) \<and>
           (\<forall>a b. inRect a b (Rect (snd s)) \<longrightarrow>
              Pix g' ! nat (b * maxX (Rect (snd s)) + a) =
                (if a = x \<and> y \<le> b then grayModel (At (fst s) a b)
                 else Pix (snd s) ! nat (b * maxX (Rect (snd s)) + a)))"
  using assms
proof (induction H x y s rule: grayscaleColumn.induct)
  case (1 H x y s)
  obtain img g where s: "s = (img, g)" by (cases s)
  let ?W = "maxX (Rect g)"
  have wfg: "wfGray g" using "1.prems"(1) by (simp add: s)
  show ?case
  proof (cases "y < H")
    case False
    with "1.prems" have "y = H" by simp
    then show ?thesis
      using "1.prems" by (subst grayscaleColumn.simps) (auto simp: inRect_def s)
  next
    case True
    let ?k = "nat (y * ?W + x)"
    let ?g1 = "g\<lparr>Pix := (Pix g)[?k := grayModel (At img x y)]\<rparr>"
    have inr: "inRect x y (Rect g)"
      using True "1.prems" by (simp add: inRect_def wfGray_def s)
    have step: "SetColor g x y (GrayColor (grayModel (At img x y))) = Some ?g1"
      using wfg inr by (simp add: SetColor_in)
    have wf1: "wfGray (snd (img, ?g1))" using wfg by (simp add: wfGray_Pix_update)
    have klen: "?k < length (Pix g)"
      using offset_bounds[of x ?W y "maxY (Rect g)"] inr wfg
      by (simp add: wfGray_def inRect_def nat_less_iff)
    have pre1: "H = maxY (Rect (snd (img, ?g1)))" "x < maxX (Rect (snd (img, ?g1)))"
      "0 \<le> y + 1" "y + 1 \<le> H"
      using "1.prems" True by (simp_all add: s)
    from "1.IH"[OF True s[symmetric] step wf1 pre1(1) "1.prems"(3) pre1(2,3,4)]
    obtain g' where
      r: "grayscaleColumn H x (y + 1) (img, ?g1) = Some (img, g')" and wf': "wfGray g'"
      and rect': "Rect g' = Rect g"
      and px: "\<forall>a b. inRect a b (Rect g) \<longrightarrow>
              Pix g' ! nat (b * ?W + a) =
                (if a = x \<and> y + 1 \<le> b then grayModel (At img a b)
                 else Pix ?g1 ! nat (b * ?W + a))"
      by auto
    have run: "grayscaleColumn H x y s = Some (img, g')"
      using True step r by (subst grayscaleColumn.simps) (simp add: s)
    have "Pix g' ! nat (b * ?W + a) =
            (if a = x \<and> y \<le> b then grayModel (At img a b) else Pix g ! nat (b * ?W + a))"
      if ab: "inRect a b (Rect g)" for a b
    proof (cases "a = x \<and> b = y")
      case True
      then show ?thesis using px ab klen by simp
    next
      case False
      then have ne: "nat (b * ?W + a) \<noteq> ?k"
        using nat_offset_eq_iff[OF wfg ab inr] by simp
      have "Pix ?g1 ! nat (b * ?W + a) = Pix g ! nat (b * ?W + a)"
        using ne by simp
      then show ?thesis using px ab False by auto
    qed
    then show ?thesis using run wf' rect' by (intro exI[of _ g']) (simp add: s)
  qed
qed

lemma grayscaleColumns_eq:
  assumes "wfGray (snd s)" "W = maxX (Rect (snd s))" "H = maxY (Rect (snd s))" "0 \<le> x" "x \<le> W"
  shows "\<exists>g'. grayscaleColumns W H x s = Some (fst s, g') \<and> wfGray g' \<and> Rect g' = Rect (snd s) \<and>
           (\<forall>a b. inRect a b (Rect (snd s)) \<longrightarrow>
              Pix g' ! nat (b * W + a) =
                (if x \<le> a then grayModel (At (fst s) a b) else Pix (snd s) ! nat (b * W + a)))"
  using assms
proof (induction W H x s rule: grayscaleColumns.induct)
  case (1 W H x s)
  obtain img g where s: "s = (img, g)" by (cases s)
  have wfg: "wfGray g" using "1.prems"(1) by (simp add: s)
  show ?case
  proof (cases "x < W")
    case False
    with "1.prems" have "x = W" by simp
    then show ?thesis
      using "1.prems" by (subst grayscaleColumns.simps) (auto simp: inRect_def s)
  next
    case True
    have h0: "0 \<le> H" using "1.prems" by (simp add: wfGray_def)
    have xw: "x < maxX (Rect (snd s))" using True "1.prems" by simp
    have z: "(0::int) \<le> 0" by simp
    from grayscaleColumn_eq[OF "1.prems"(1,3,4) xw z h0]
    obtain g1 where
      col: "grayscaleColumn H x 0 s = Some (img, g1)" and wf1: "wfGray g1"
      and rect1: "Rect g1 = Rect g"
      and px1: "\<forall>a b. inRect a b (Rect g) \<longrightarrow>
              Pix g1 ! nat (b * maxX (Rect g) + a) =
                (if a = x \<and> 0 \<le> b then grayModel (At img a b)
                 else Pix g ! nat (b * maxX (Rect g) + a))"
      unfolding s fst_conv snd_conv by blast
    have wf1': "wfGray (snd (img, g1))" using wf1 by simp
    have pre1: "W = maxX (Rect (snd (img, g1)))" "H = maxY (Rect (snd (img, g1)))"
      "0 \<le> x + 1" "x + 1 \<le> W"
      using "1.prems" True rect1 by (simp_all add: s)
    from "1.IH"[OF True col wf1' pre1]
    obtain g' where
      r: "grayscaleColumns W H (x + 1) (img, g1) = Some (img, g')" and wf': "wfGray g'"
      and rect': "Rect g' = Rect g1"
      and px: "\<forall>a b. inRect a b (Rect g1) \<longrightarrow>
              Pix g' ! nat (b * W + a) =
                (if x + 1 \<le> a then grayModel (At img a b) else Pix g1 ! nat (b * W + a))"
      unfolding fst_conv snd_conv by blast
    have run: "grayscaleColumns W H x s = Some (img, g')"
      using True col r by (subst grayscaleColumns.simps) simp
    have Wg: "W = maxX (Rect g)" using "1.prems"(2) by (simp add: s)
    have "Pix g' ! nat (b * W + a) =
            (if x \<le> a then grayModel (At img a b) else Pix g ! nat (b * W + a))"
      if ab: "inRect a b (Rect g)" for a b
    proof -
      have b0: "0 \<le> b" using ab wfg by (simp add: inRect_def wfGray_def)
      have ab1: "inRect a b (Rect g1)" using ab rect1 by simp
      have e1: "Pix g' ! nat (b * W + a) =
                (if x + 1 \<le> a then grayModel (At img a b) else Pix g1 ! nat (b * W + a))"
        using px ab1 by blast
      have e2: "Pix g1 ! nat (b * W + a) =
                (if a = x then grayModel (At img a b) else Pix g ! nat (b * W + a))"
        using px1[rule_format, OF ab] b0 unfolding Wg by simp
      show ?thesis
        unfolding e1 e2 by (simp add: not_le) linarith?
    qed
    then show ?thesis using run wf' rect' rect1 by (intro exI[of _ g']) (simp add: s)
  qed
qed

lemma imageToGrayscaleState_eq:
  assumes "wfImage src"
  shows "\<exists>g. imageToGrayscaleState (Some src) = Some (src, g) \<and> wfGray g \<and> Rect g = Bounds src \<and>
           (\<forall>a b. inRect a b (Bounds src) \<longrightarrow> GrayAt g a b = Some (grayModel (At src a b)))"
proof -
  from NewGray_wf[OF assms]
  obtain g0 where n: "NewGray (Bounds src) = Some g0" and wf0: "wfGray g0"
    and rect0: "Rect g0 = Bounds src"
    by blast
  have w0: "0 \<le> maxX (Bounds src)" using assms by (simp add: wfImage_def)
  have wf0': "wfGray (snd (src, g0))" using wf0 by simp
  have pre: "maxX (Bounds src) = maxX (Rect (snd (src, g0)))"
    "maxY (Bounds src) = maxY (Rect (snd (src, g0)))"
    using rect0 by simp_all
  have z: "(0::int) \<le> 0" by simp
  from grayscaleColumns_eq[OF wf0' pre z w0]
  obtain g where
    r: "grayscaleColumns (maxX (Bounds src)) (maxY (Bounds src)) 0 (src, g0) = Some (src, g)"
    and wf: "wfGray g" and rect: "Rect g = Rect g0"
    and px: "\<forall>a b. inRect a b (Rect g0) \<longrightarrow>
              Pix g ! nat (b * maxX (Bounds src) + a) =
                (if 0 \<le> a then grayModel (At src a b) else Pix g0 ! nat (b * maxX (Bounds src) + a))"
    unfolding fst_conv snd_conv by blast
  have run: "imageToGrayscaleState (Some src) = Some (src, g)"
    by (simp only: imageToGrayscaleState_def option.case n Option.bind.bind_lunit r)
  have "GrayAt g a b = Some (grayModel (At src a b))" if ab: "inRect a b (Bounds src)" for a b
  proof -
    have a0: "0 \<le> a" using ab assms by (simp add: inRect_def wfImage_def)
    have "inRect a b (Rect g)" using ab rect rect0 by simp
    have ab0: "inRect a b (Rect g0)" using ab rect0 by simp
    have e: "Pix g ! nat (b * maxX (Bounds src) + a) = grayModel (At src a b)"
      using px[rule_format, OF ab0] a0 by simp
    have "GrayAt g a b = Some (Pix g ! nat (b * maxX (Rect g) + a))"
      by (rule GrayAt_in[OF wf \<open>inRect a b (Rect g)\<close>])
    then show ?thesis using e rect rect0 by simp
  qed
  then show ?thesis using run wf rect rect0 by (intro exI[of _ g]) simp
qed

lemma imageToGrayscale_eq:
  assumes "wfImage src"
  shows "\<exists>g. imageToGrayscale (Some src) = Some g \<and> wfGray g \<and> Rect g = Bounds src \<and>
           (\<forall>a b. inRect a b (Bounds src) \<longrightarrow> GrayAt g a b = Some (grayModel (At src a b)))"
proof -
  from imageToGrayscaleState_eq[OF assms]
  obtain g where r: "imageToGrayscaleState (Some src) = Some (src, g)"
    and rest: "wfGray g" "Rect g = Bounds src"
      "\<forall>a b. inRect a b (Bounds src) \<longrightarrow> GrayAt g a b = Some (grayModel (At src a b))"
    by blast
  have "imageToGrayscale (Some src) = Some g"
    by (simp only: imageToGrayscale_def r option.map snd_conv)
  with rest show ?thesis by blast
qed

text \<open>The call never replaces its source: whatever it returns, the source is the one it was given.\<close>

lemma grayscaleColumn_source:
  "grayscaleColumn H x y s = Some s' \<Longrightarrow> fst s' = fst s"
proof (induction H x y s arbitrary: s' rule: grayscaleColumn.induct)
  case (1 H x y s)
  obtain img g where s: "s = (img, g)" by (cases s)
  show ?case
  proof (cases "y < H")
    case False
    with "1.prems" show ?thesis
      by (subst (asm) grayscaleColumn.simps) simp
  next
    case True
    show ?thesis
    proof (cases "SetColor g x y (GrayColor (grayModel (At img x y)))")
      case None
      with True "1.prems" show ?thesis
        by (subst (asm) grayscaleColumn.simps) (simp add: s)
    next
      case (Some g1)
      with True "1.prems" have "grayscaleColumn H x (y + 1) (img, g1) = Some s'"
        by (subst (asm) grayscaleColumn.simps) (simp add: s)
      from "1.IH"[OF True s[symmetric] Some this] show ?thesis
        by (simp add: s)
    qed
  qed
qed

lemma grayscaleColumns_source:
  "grayscaleColumns W H x s = Some s' \<Longrightarrow> fst s' = fst s"
proof (induction W H x s arbitrary: s' rule: grayscaleColumns.induct)
  case (1 W H x s)
  show ?case
  proof (cases "x < W")
    case False
    with "1.prems" show ?thesis
      by (subst (asm) grayscaleColumns.simps) simp
  next
    case True
    show ?thesis
    proof (cases "grayscaleColumn H x 0 s")
      case None
      with True "1.prems" show ?thesis
        by (subst (asm) grayscaleColumns.simps) simp
    next
      case (Some s1)
      with True "1.prems" have "grayscaleColumns W H (x + 1) s1 = Some s'"
        by (subst (asm) grayscaleColumns.simps) simp
      from "1.IH"[OF True Some this] grayscaleColumn_source[OF Some] show ?thesis
        by simp
    qed
  qed
qed

lemma imageToGrayscaleState_source:
  assumes "imageToGrayscaleState (Some src) = Some (src', res)"
  shows "src' = src"
proof (cases "NewGray (Bounds src)")
  case None
  with assms show ?thesis by (simp add: imageToGrayscaleState_def)
next
  case (Some g0)
  with assms have "grayscaleColumns (maxX (Bounds src)) (maxY (Bounds src)) 0 (src, g0) =
      Some (src', res)"
    by (simp add: imageToGrayscaleState_def)
  from grayscaleColumns_source[OF this] show ?thesis by simp
qed

lemma widen_255: "widen 255 = 65535"
  by (simp add: widen_def)

lemma widen_0: "widen 0 = 0"
  by (simp add: widen_def)

lemma grayModel_channels:
  assumes "RGBA c = (widen r, widen g, widen b, alpha)" "r \<noteq> g \<or> g \<noteq> b"
  shows "grayModel c =
           ucast (drop_bit 24 (19595 * widen r + 38470 * widen g + 7471 * widen b + push_bit 15 1))"
proof (cases c)
  case (GrayColor v)
  with assms(1) have "widen r = widen g" "widen g = widen b" by auto
  moreover have "inj widen"
  proof (rule injI)
    fix p q :: "8 word"
    assume "widen p = widen q"
    then have "ucast (widen p) = (ucast (widen q) :: 8 word)" by simp
    moreover have "ucast (widen v) = v" for v :: "8 word"
      unfolding widen_def by (rule bit_word_eqI) (auto simp: bit_simps)
    ultimately show "p = q" by simp
  qed
  ultimately have "r = g" "g = b" by (auto dest: injD)
  with assms(2) show ?thesis by simp
next
  case (RGBAColor r' g' b' a')
  with assms(1) show ?thesis by simp
next
  case (OtherColor r' g' b' a')
  with assms(1) show ?thesis by simp
qed

lemma grayModel_primaries_any:
  assumes "RGBA c = (widen r, widen g, widen b, alpha)"
  shows "(r, g, b) = (255, 0, 0) \<Longrightarrow> grayModel c = 76"
    and "(r, g, b) = (0, 255, 0) \<Longrightarrow> grayModel c = 150"
    and "(r, g, b) = (0, 0, 255) \<Longrightarrow> grayModel c = 29"
  using grayModel_channels[OF assms]
  by (simp_all add: widen_255 widen_0 drop_bit_eq_div)

lemma luma601_primaries:
  "luma601 255 0 0 = 76" "luma601 0 255 0 = 150" "luma601 0 0 255 = 29"
  by (simp_all add: luma601_def round_def floor_eq_iff)


section \<open>Claims about the ditherer\<close>

text \<open>
  C1 (found false on the code). The claim: \<^verbatim>\<open>DitherInPlace\<close> adds to each in-bounds
  neighbour the residual times 7/16, 3/16, 5/16, 1/16, truncated toward zero. On the
  one-row buffer \<open>[100, 100]\<close> the first pixel becomes 0 with residual 100, and
  \<open>int(100 * 7/16) = 43\<close> would make its right neighbour 143 and then 255. The code leaves
  the neighbour at 100 and the pass ends with \<open>[0, 0]\<close>: the four weights are quotients of
  integer constants and are all 0.
\<close>

theorem weights_are_zero_at_100_100:
  "ditherPixel 0 255 1 0 0 0
      (\<lparr>Pix = [100, 100], Stride = 2, Rect = \<lparr>minX = 0, minY = 0, maxX = 2, maxY = 1\<rparr>\<rparr>, []) =
     Some (\<lparr>Pix = [0, 100], Stride = 2, Rect = \<lparr>minX = 0, minY = 0, maxX = 2, maxY = 1\<rparr>\<rparr>,
           [(0, 0), (1, 0)]) \<and>
   goInt ((100 - 0) * (7 / 16)) = 43 \<and>
   map_option fst (errorDiffusionDither
      \<lparr>Pix = [100, 100], Stride = 2, Rect = \<lparr>minX = 0, minY = 0, maxX = 2, maxY = 1\<rparr>\<rparr> False) =
     Some \<lparr>Pix = [0, 0], Stride = 2, Rect = \<lparr>minX = 0, minY = 0, maxX = 2, maxY = 1\<rparr>\<rparr>"
proof -
  let ?b = "\<lparr>Pix = [100, 100], Stride = 2, Rect = \<lparr>minX = 0, minY = 0, maxX = 2, maxY = 1\<rparr>\<rparr>"
  have wf: "wfGray ?b" by (simp add: wfGray_def)
  have "inRect 0 0 (Rect ?b)" by (simp add: inRect_def)
  from ditherPixel_eq[OF wf this, of 0 255 1 0 "[]"]
  have 1: "ditherPixel 0 255 1 0 0 0 (?b, []) =
     Some (\<lparr>Pix = [0, 100], Stride = 2, Rect = \<lparr>minX = 0, minY = 0, maxX = 2, maxY = 1\<rparr>\<rparr>,
           [(0, 0), (1, 0)])"
    by (simp add: quantize_def threshold_def pixelWrites_def)
  have 2: "goInt ((100 - 0) * (7 / 16)) = 43"
    by (simp add: goInt_def floor_eq_iff)
  from errorDiffusionDither_eq[OF wf, of False]
  have 3: "map_option fst (errorDiffusionDither ?b False) =
     Some \<lparr>Pix = [0, 0], Stride = 2, Rect = \<lparr>minX = 0, minY = 0, maxX = 2, maxY = 1\<rparr>\<rparr>"
    by (auto simp: quantize_def threshold_def)
  show ?thesis using 1 2 3 by simp
qed

text \<open>
  C2 (found false on the code). The claim: in the scenario \<open>[[200, 50], [50, 200]]\<close> pixel
  \<open>(0, 0)\<close> becomes 255 with residual \<open>-55\<close>, whose 7/16 truncates to \<open>-24\<close>, so that
  \<open>(1, 0)\<close> holds 26 before its own quantisation. In the code the first pixel does become
  255 and \<open>int(-55 * 7/16)\<close> is \<open>-24\<close>, but after the step \<open>(1, 0)\<close> still holds 50, and
  so do the other neighbours their old values.
\<close>

theorem scenario_first_pixel:
  "ditherPixel 0 255 1 1 0 0 (scenarioBuffer, []) =
     Some (scenarioBuffer\<lparr>Pix := [255, 50, 50, 200]\<rparr>, [(0, 0), (1, 0), (1, 1), (0, 1)]) \<and>
   goInt ((200 - 255) * (7 / 16)) = - 24 \<and>
   GrayAt (scenarioBuffer\<lparr>Pix := [255, 50, 50, 200]\<rparr>) 1 0 = Some 50"
proof -
  have wf: "wfGray scenarioBuffer" by (simp add: wfGray_def scenarioBuffer_def)
  have "inRect 0 0 (Rect scenarioBuffer)" by (simp add: inRect_def scenarioBuffer_def)
  from ditherPixel_eq[OF wf this, of 0 255 1 1 "[]"]
  have 1: "ditherPixel 0 255 1 1 0 0 (scenarioBuffer, []) =
     Some (scenarioBuffer\<lparr>Pix := [255, 50, 50, 200]\<rparr>, [(0, 0), (1, 0), (1, 1), (0, 1)])"
    by (simp add: quantize_def threshold_def pixelWrites_def scenarioBuffer_def)
  have 2: "goInt ((200 - 255) * (7 / 16)) = - 24"
    by (simp add: goInt_def ceiling_eq_iff)
  have 3: "GrayAt (scenarioBuffer\<lparr>Pix := [255, 50, 50, 200]\<rparr>) 1 0 = Some 50"
    by (simp add: GrayAt_def inRect_def scenarioBuffer_def PixOffset_def sliceGet_def)
  show ?thesis using 1 2 3 by simp
qed



text \<open>
  C4. For every buffer of extent \<open>W \<times> H\<close> with \<open>W, H \<ge> 0\<close> and both values of the invert
  flag, the pass completes, keeps the extent, and leaves every sample equal to one of the
  two sentinels \<open>low\<close> and \<open>high\<close>.
\<close>

theorem dither_only_sentinels:
  assumes "wfGray img"
  shows "\<exists>img' ws. errorDiffusionDither img invertFlag = Some (img', ws) \<and>
           Rect img' = Rect img \<and> length (Pix img') = length (Pix img) \<and>
           (\<forall>v \<in> set (Pix img'). v = sentinelLow invertFlag \<or> v = sentinelHigh invertFlag)"
proof -
  from errorDiffusionDither_eq[OF assms, of invertFlag]
  obtain ws where r: "errorDiffusionDither img invertFlag =
      Some (img\<lparr>Pix := map (quantize (if invertFlag then 255 else 0)
                              (if invertFlag then 0 else 255)) (Pix img)\<rparr>, ws)"
    by blast
  show ?thesis
    unfolding r quantize_sentinels by auto
qed

theorem dither_only_sentinels_witness:
  "wfGray scenarioBuffer \<and>
   (\<exists>img' ws. errorDiffusionDither scenarioBuffer True = Some (img', ws) \<and>
      Rect img' = Rect scenarioBuffer \<and> length (Pix img') = length (Pix scenarioBuffer) \<and>
      (\<forall>v \<in> set (Pix img'). v = sentinelLow True \<or> v = sentinelHigh True))"
proof -
  have wf: "wfGray scenarioBuffer"
    by (simp add: wfGray_def scenarioBuffer_def)
  from dither_only_sentinels[OF wf, of True] wf show ?thesis by simp
qed

text \<open>
  C5. Dithering with the invert flag set and then exchanging 0 and 255 in every sample
  gives exactly the buffer that dithering without the flag gives.
\<close>

theorem invert_then_swap:
  assumes "wfGray img"
  shows "\<exists>a wa b wb. errorDiffusionDither img True = Some (a, wa) \<and>
           errorDiffusionDither img False = Some (b, wb) \<and>
           a\<lparr>Pix := map swapSentinels (Pix a)\<rparr> = b"
proof -
  from errorDiffusionDither_eq[OF assms, of True]
  obtain wa where a: "errorDiffusionDither img True =
      Some (img\<lparr>Pix := map (quantize 255 0) (Pix img)\<rparr>, wa)"
    by auto
  from errorDiffusionDither_eq[OF assms, of False]
  obtain wb where b: "errorDiffusionDither img False =
      Some (img\<lparr>Pix := map (quantize 0 255) (Pix img)\<rparr>, wb)"
    by auto
  show ?thesis
    unfolding a b by (simp add: swap_quantize comp_def)
qed

theorem invert_then_swap_witness:
  "wfGray scenarioBuffer \<and>
   (\<exists>a wa b wb. errorDiffusionDither scenarioBuffer True = Some (a, wa) \<and>
      errorDiffusionDither scenarioBuffer False = Some (b, wb) \<and>
      a\<lparr>Pix := map swapSentinels (Pix a)\<rparr> = b)"
proof -
  have wf: "wfGray scenarioBuffer"
    by (simp add: wfGray_def scenarioBuffer_def)
  from invert_then_swap[OF wf] wf show ?thesis by simp
qed

text \<open>
  C7. For \<open>W, H \<ge> 1\<close>: at each pixel the program writes the pixel and then exactly the
  neighbours allowed by the guards \<open>x + 1 < W\<close>, \<open>y + 1 < H\<close> and \<open>x - 1 \<ge> 0\<close>; the whole pass
  completes, every write it issues lies in \<open>[0, W) \<times> [0, H)\<close>, and the buffer ends with the
  two values 0 and 255 only.
\<close>

theorem dither_writes_in_bounds:
  assumes "wfGray img" "1 \<le> maxX (Rect img)" "1 \<le> maxY (Rect img)"
  shows "(\<forall>x y ws0. inRect x y (Rect img) \<longrightarrow>
            map_option snd (ditherPixel (sentinelLow invertFlag) (sentinelHigh invertFlag)
                (maxX (Rect img) - 1) (maxY (Rect img) - 1) x y (img, ws0)) =
              Some (ws0 @ (x, y) # guardedNeighbours (maxX (Rect img)) (maxY (Rect img)) x y)) \<and>
         (\<exists>img' ws. errorDiffusionDither img invertFlag = Some (img', ws) \<and>
            (\<forall>(x, y) \<in> set ws. 0 \<le> x \<and> x < maxX (Rect img) \<and> 0 \<le> y \<and> y < maxY (Rect img)) \<and>
            (\<forall>v \<in> set (Pix img'). v = 0 \<or> v = 255))"
proof (intro conjI allI impI)
  fix x y ws0
  assume "inRect x y (Rect img)"
  then show "map_option snd (ditherPixel (sentinelLow invertFlag) (sentinelHigh invertFlag)
                (maxX (Rect img) - 1) (maxY (Rect img) - 1) x y (img, ws0)) =
              Some (ws0 @ (x, y) # guardedNeighbours (maxX (Rect img)) (maxY (Rect img)) x y)"
    using assms(1) by (simp add: ditherPixel_eq pixelWrites_guarded)
next
  from errorDiffusionDither_eq[OF assms(1), of invertFlag]
  obtain ws where r: "errorDiffusionDither img invertFlag =
      Some (img\<lparr>Pix := map (quantize (if invertFlag then 255 else 0)
                              (if invertFlag then 0 else 255)) (Pix img)\<rparr>, ws)"
    and t: "\<forall>p \<in> set ws. inRect (fst p) (snd p) (Rect img)"
    by blast
  have "\<forall>(x, y) \<in> set ws. 0 \<le> x \<and> x < maxX (Rect img) \<and> 0 \<le> y \<and> y < maxY (Rect img)"
    using t assms(1) by (auto simp: inRect_def wfGray_def)
  moreover have "\<forall>v \<in> set (Pix (img\<lparr>Pix := map (quantize (if invertFlag then 255 else 0)
                              (if invertFlag then 0 else 255)) (Pix img)\<rparr>)). v = 0 \<or> v = 255"
    by (auto simp: quantize_def)
  ultimately show "\<exists>img' ws. errorDiffusionDither img invertFlag = Some (img', ws) \<and>
            (\<forall>(x, y) \<in> set ws. 0 \<le> x \<and> x < maxX (Rect img) \<and> 0 \<le> y \<and> y < maxY (Rect img)) \<and>
            (\<forall>v \<in> set (Pix img'). v = 0 \<or> v = 255)"
    using r by blast
qed

theorem dither_writes_in_bounds_witness:
  "wfGray uniformBuffer \<and> 1 \<le> maxX (Rect uniformBuffer) \<and> 1 \<le> maxY (Rect uniformBuffer) \<and>
   inRect 2 2 (Rect uniformBuffer) \<and>
   map_option snd (ditherPixel (sentinelLow False) (sentinelHigh False) 2 2 2 2 (uniformBuffer, [])) =
     Some [(2, 2)] \<and>
   inRect 0 0 (Rect uniformBuffer) \<and>
   map_option snd (ditherPixel (sentinelLow False) (sentinelHigh False) 2 2 0 0 (uniformBuffer, [])) =
     Some [(0, 0), (1, 0), (1, 1), (0, 1)] \<and>
   (\<exists>img' ws. errorDiffusionDither uniformBuffer False = Some (img', ws) \<and>
      (\<forall>(x, y) \<in> set ws. 0 \<le> x \<and> x < 3 \<and> 0 \<le> y \<and> y < 3) \<and>
      (\<forall>v \<in> set (Pix img'). v = 0 \<or> v = 255))"
proof -
  have wf: "wfGray uniformBuffer"
    by (simp add: wfGray_def uniformBuffer_def)
  have d: "1 \<le> maxX (Rect uniformBuffer)" "1 \<le> maxY (Rect uniformBuffer)"
    by (simp_all add: uniformBuffer_def)
  have r: "inRect 2 2 (Rect uniformBuffer)" "inRect 0 0 (Rect uniformBuffer)"
    by (simp_all add: uniformBuffer_def inRect_def)
  have m: "maxX (Rect uniformBuffer) = 3" "maxY (Rect uniformBuffer) = 3"
    by (simp_all add: uniformBuffer_def)
  note th = dither_writes_in_bounds[OF wf d, of False, unfolded m]
  from th have a: "map_option snd (ditherPixel (sentinelLow False) (sentinelHigh False)
                (3 - 1) (3 - 1) 2 2 (uniformBuffer, [])) = Some ([] @ (2, 2) # guardedNeighbours 3 3 2 2)"
    using r(1) by blast
  from th have b: "map_option snd (ditherPixel (sentinelLow False) (sentinelHigh False)
                (3 - 1) (3 - 1) 0 0 (uniformBuffer, [])) = Some ([] @ (0, 0) # guardedNeighbours 3 3 0 0)"
    using r(2) by blast
  from th have c: "\<exists>img' ws. errorDiffusionDither uniformBuffer False = Some (img', ws) \<and>
      (\<forall>(x, y) \<in> set ws. 0 \<le> x \<and> x < 3 \<and> 0 \<le> y \<and> y < 3) \<and>
      (\<forall>v \<in> set (Pix img'). v = 0 \<or> v = 255)"
    by blast
  show ?thesis
    using wf d r a b c by (simp add: guardedNeighbours_def)
qed

text \<open>
  C10. The pass is a pointwise threshold map: each sample ends as \<open>high\<close> when its own
  initial value exceeds 127 and as \<open>low\<close> otherwise, whatever the other samples are.
\<close>

theorem dither_is_threshold_map:
  assumes "wfGray img"
  shows "map_option fst (errorDiffusionDither img invertFlag) =
           Some (img\<lparr>Pix := thresholdMap invertFlag (Pix img)\<rparr>)"
proof -
  from errorDiffusionDither_eq[OF assms, of invertFlag]
  obtain ws where "errorDiffusionDither img invertFlag =
      Some (img\<lparr>Pix := map (quantize (if invertFlag then 255 else 0)
                              (if invertFlag then 0 else 255)) (Pix img)\<rparr>, ws)"
    by blast
  then show ?thesis
    by (simp only: quantize_sentinels thresholdMap_def option.map fst_conv)
qed

theorem dither_is_threshold_map_witness:
  "wfGray scenarioBuffer \<and>
   map_option fst (errorDiffusionDither scenarioBuffer False) =
     Some (scenarioBuffer\<lparr>Pix := [255, 0, 0, 255]\<rparr>)"
proof -
  have wf: "wfGray scenarioBuffer"
    by (simp add: wfGray_def scenarioBuffer_def)
  have "thresholdMap False (Pix scenarioBuffer) = [255, 0, 0, 255]"
    by (simp add: thresholdMap_def scenarioBuffer_def sentinelLow_def sentinelHigh_def)
  with dither_is_threshold_map[OF wf, of False] wf show ?thesis by simp
qed

section \<open>Claims about the program and the converter\<close>

text \<open>
  C6. When \<^verbatim>\<open>loadImage\<close> fails (the file does not open or does not decode), the run prints
  the error, ends with a non-zero exit status and never calls \<^verbatim>\<open>saveImage\<close>. The run ends
  by the panic of \<^verbatim>\<open>imageToGrayscale\<close> on the nil image: \<^verbatim>\<open>main\<close> itself does not exit
  after printing the error.
\<close>

theorem decode_failure_ends_run:
  assumes "buildConfigFromArgs fl = Inr cfg" "loadImage w (inFile cfg) = Inl err"
  shows "stderr (main w fl) = [ErrorLine err] \<and> ending (main w fl) = Panicked \<and>
         exitStatus (ending (main w fl)) \<noteq> 0 \<and> saveCalls (main w fl) = []"
  using assms by (simp add: main_def imageToGrayscale_def imageToGrayscaleState_def)

theorem decode_failure_ends_run_witness:
  "buildConfigFromArgs someFlags = Inr \<lparr>inFile = ''in.gif'', outFile = ''out.gif'', invert = False\<rparr> \<and>
   loadImage undecodableWorld ''in.gif'' = Inl ''image: unknown format'' \<and>
   stderr (main undecodableWorld someFlags) = [ErrorLine ''image: unknown format''] \<and>
   ending (main undecodableWorld someFlags) = Panicked \<and>
   exitStatus (ending (main undecodableWorld someFlags)) \<noteq> 0 \<and>
   saveCalls (main undecodableWorld someFlags) = []"
proof -
  have c: "buildConfigFromArgs someFlags =
             Inr \<lparr>inFile = ''in.gif'', outFile = ''out.gif'', invert = False\<rparr>"
    by (simp add: buildConfigFromArgs_def someFlags_def Ext_def)
  have l: "loadImage undecodableWorld
             (inFile \<lparr>inFile = ''in.gif'', outFile = ''out.gif'', invert = False\<rparr>) =
           Inl ''image: unknown format''"
    by (simp add: loadImage_def undecodableWorld_def)
  from decode_failure_ends_run[OF c l] c l show ?thesis by simp
qed

text \<open>
  C8. The converter never mutates its source image: whenever the call returns, the source
  is as it was given; and on every source of extent \<open>W \<times> H\<close> it does return, leaving the
  source as it was. For every pixel of the source that is pure red, pure green or pure blue
  (its colour reports the 8-bit channels \<open>(255, 0, 0)\<close>, \<open>(0, 255, 0)\<close> or \<open>(0, 0, 255)\<close>,
  widened to 16 bits) the sample of the returned buffer is within 1 of the weighted sum
  \<open>0.299 R + 0.587 G + 0.114 B\<close> rounded to the nearest integer.
\<close>

theorem grayscale_primaries:
  "(\<forall>src' res. imageToGrayscaleState (Some src) = Some (src', res) \<longrightarrow> src' = src) \<and>
   (wfImage src \<longrightarrow>
      (\<exists>res. imageToGrayscaleState (Some src) = Some (src, res) \<and>
         imageToGrayscale (Some src) = Some res \<and> Rect res = Bounds src \<and>
         (\<forall>x y r g b alpha.
            inRect x y (Bounds src) \<and>
            (r, g, b) \<in> {(255, 0, 0), (0, 255, 0), (0, 0, 255)} \<and>
            RGBA (At src x y) = (widen r, widen g, widen b, alpha) \<longrightarrow>
            (\<exists>v. GrayAt res x y = Some v \<and>
               \<bar>uint v - luma601 (uint r) (uint g) (uint b)\<bar> \<le> 1))))"
proof (intro conjI allI impI)
  fix src' res
  assume "imageToGrayscaleState (Some src) = Some (src', res)"
  then show "src' = src" by (rule imageToGrayscaleState_source)
next
  assume wf: "wfImage src"
  from imageToGrayscaleState_eq[OF wf]
  obtain res where st: "imageToGrayscaleState (Some src) = Some (src, res)"
    and rect: "Rect res = Bounds src"
    and px: "\<forall>a b. inRect a b (Bounds src) \<longrightarrow> GrayAt res a b = Some (grayModel (At src a b))"
    by blast
  have run: "imageToGrayscale (Some src) = Some res"
    by (simp only: imageToGrayscale_def st option.map snd_conv)
  have "\<exists>v. GrayAt res x y = Some v \<and> \<bar>uint v - luma601 (uint r) (uint g) (uint b)\<bar> \<le> 1"
    if h: "inRect x y (Bounds src) \<and>
           (r, g, b) \<in> {(255, 0, 0), (0, 255, 0), (0, 0, 255)} \<and>
           RGBA (At src x y) = (widen r, widen g, widen b, alpha)"
    for x y r g b alpha
  proof -
    from h have inr: "inRect x y (Bounds src)"
      and prim: "(r, g, b) \<in> {(255, 0, 0), (0, 255, 0), (0, 0, 255)}"
      and ch: "RGBA (At src x y) = (widen r, widen g, widen b, alpha)"
      by blast+
    have at: "GrayAt res x y = Some (grayModel (At src x y))"
      using px inr by simp
    have u: "uint (255 :: 8 word) = 255" "uint (0 :: 8 word) = 0" by simp_all
    consider "r = 255" "g = 0" "b = 0" | "r = 0" "g = 255" "b = 0" | "r = 0" "g = 0" "b = 255"
      using prim by auto
    then have "\<bar>uint (grayModel (At src x y)) - luma601 (uint r) (uint g) (uint b)\<bar> \<le> 1"
    proof cases
      case 1
      from u show ?thesis
        using grayModel_primaries_any[OF ch] unfolding 1 by (simp add: luma601_primaries)
    next
      case 2
      from u show ?thesis
        using grayModel_primaries_any[OF ch] unfolding 2 by (simp add: luma601_primaries)
    next
      case 3
      from u show ?thesis
        using grayModel_primaries_any[OF ch] unfolding 3 by (simp add: luma601_primaries)
    qed
    with at show ?thesis by blast
  qed
  then show "\<exists>res. imageToGrayscaleState (Some src) = Some (src, res) \<and>
         imageToGrayscale (Some src) = Some res \<and> Rect res = Bounds src \<and>
         (\<forall>x y r g b alpha.
            inRect x y (Bounds src) \<and>
            (r, g, b) \<in> {(255, 0, 0), (0, 255, 0), (0, 0, 255)} \<and>
            RGBA (At src x y) = (widen r, widen g, widen b, alpha) \<longrightarrow>
            (\<exists>v. GrayAt res x y = Some v \<and>
               \<bar>uint v - luma601 (uint r) (uint g) (uint b)\<bar> \<le> 1))"
    using st run rect by blast
qed

theorem grayscale_primaries_witness:
  "wfImage primariesImage \<and>
   (\<exists>res. imageToGrayscaleState (Some primariesImage) = Some (primariesImage, res) \<and>
      imageToGrayscale (Some primariesImage) = Some res \<and>
      Rect res = Bounds primariesImage \<and>
      inRect 0 0 (Bounds primariesImage) \<and>
      RGBA (At primariesImage 0 0) = (widen 255, widen 0, widen 0, widen 255) \<and>
      (\<exists>v. GrayAt res 0 0 = Some v \<and> \<bar>uint v - luma601 255 0 0\<bar> \<le> 1) \<and>
      inRect 1 0 (Bounds primariesImage) \<and>
      RGBA (At primariesImage 1 0) = (widen 0, widen 255, widen 0, widen 255) \<and>
      (\<exists>v. GrayAt res 1 0 = Some v \<and> \<bar>uint v - luma601 0 255 0\<bar> \<le> 1) \<and>
      inRect 2 0 (Bounds primariesImage) \<and>
      RGBA (At primariesImage 2 0) = (widen 0, widen 0, widen 255, widen 255) \<and>
      (\<exists>v. GrayAt res 2 0 = Some v \<and> \<bar>uint v - luma601 0 0 255\<bar> \<le> 1))"
proof -
  have wf: "wfImage primariesImage"
    by (simp add: wfImage_def primariesImage_def)
  have r: "inRect 0 0 (Bounds primariesImage)" "inRect 1 0 (Bounds primariesImage)"
    "inRect 2 0 (Bounds primariesImage)"
    by (simp_all add: inRect_def primariesImage_def)
  have a: "RGBA (At primariesImage 0 0) = (widen 255, widen 0, widen 0, widen 255)"
    "RGBA (At primariesImage 1 0) = (widen 0, widen 255, widen 0, widen 255)"
    "RGBA (At primariesImage 2 0) = (widen 0, widen 0, widen 255, widen 255)"
    by (simp_all add: primariesImage_def)
  have u: "uint (255 :: 8 word) = 255" "uint (0 :: 8 word) = 0" by simp_all
  from grayscale_primaries[of primariesImage] wf
  obtain res where st: "imageToGrayscaleState (Some primariesImage) = Some (primariesImage, res)"
    and run: "imageToGrayscale (Some primariesImage) = Some res"
    and rect: "Rect res = Bounds primariesImage"
    and px: "\<And>x y r g b alpha.
            inRect x y (Bounds primariesImage) \<Longrightarrow>
            (r, g, b) \<in> {(255, 0, 0), (0, 255, 0), (0, 0, 255)} \<Longrightarrow>
            RGBA (At primariesImage x y) = (widen r, widen g, widen b, alpha) \<Longrightarrow>
            (\<exists>v. GrayAt res x y = Some v \<and>
               \<bar>uint v - luma601 (uint r) (uint g) (uint b)\<bar> \<le> 1)"
    by blast
  from px[OF r(1) _ a(1)] u
  have p0: "\<exists>v. GrayAt res 0 0 = Some v \<and> \<bar>uint v - luma601 255 0 0\<bar> \<le> 1" by simp
  from px[OF r(2) _ a(2)] u
  have p1: "\<exists>v. GrayAt res 1 0 = Some v \<and> \<bar>uint v - luma601 0 255 0\<bar> \<le> 1" by simp
  from px[OF r(3) _ a(3)] u
  have p2: "\<exists>v. GrayAt res 2 0 = Some v \<and> \<bar>uint v - luma601 0 0 255\<bar> \<le> 1" by simp
  show ?thesis using wf st run rect r a p0 p1 p2 by blast
qed

text \<open>
  C9. Both operations are total on inputs of non-negative extent. The converter returns a
  buffer of the extent of its source, empty when the width or the height is 0; the pass
  over any buffer completes, keeps the extent, and leaves an empty buffer as it was.
\<close>

theorem core_operations_total:
  "(wfImage src \<longrightarrow>
      (\<exists>g. imageToGrayscale (Some src) = Some g \<and> Rect g = Bounds src \<and> wfGray g \<and>
         (maxX (Bounds src) = 0 \<or> maxY (Bounds src) = 0 \<longrightarrow> Pix g = []))) \<and>
   (wfGray buf \<longrightarrow>
      (\<exists>buf' ws. errorDiffusionDither buf invertFlag = Some (buf', ws) \<and>
         Rect buf' = Rect buf \<and> Stride buf' = Stride buf \<and>
         length (Pix buf') = length (Pix buf) \<and> (Pix buf = [] \<longrightarrow> buf' = buf)))"
proof (intro conjI impI)
  assume wf: "wfImage src"
  from imageToGrayscale_eq[OF wf]
  obtain g where run: "imageToGrayscale (Some src) = Some g" and wfg: "wfGray g"
    and rect: "Rect g = Bounds src"
    by blast
  have "Pix g = []" if "maxX (Bounds src) = 0 \<or> maxY (Bounds src) = 0"
    using that wfg rect by (auto simp: wfGray_def)
  then show "\<exists>g. imageToGrayscale (Some src) = Some g \<and> Rect g = Bounds src \<and> wfGray g \<and>
         (maxX (Bounds src) = 0 \<or> maxY (Bounds src) = 0 \<longrightarrow> Pix g = [])"
    using run wfg rect by blast
next
  assume wf: "wfGray buf"
  let ?q = "quantize (if invertFlag then 255 else 0) (if invertFlag then 0 else 255)"
  from errorDiffusionDither_eq[OF wf, of invertFlag]
  obtain ws where r: "errorDiffusionDither buf invertFlag = Some (buf\<lparr>Pix := map ?q (Pix buf)\<rparr>, ws)"
    by blast
  show "\<exists>buf' ws. errorDiffusionDither buf invertFlag = Some (buf', ws) \<and>
         Rect buf' = Rect buf \<and> Stride buf' = Stride buf \<and>
         length (Pix buf') = length (Pix buf) \<and> (Pix buf = [] \<longrightarrow> buf' = buf)"
    unfolding r by simp
qed

theorem core_operations_total_witness:
  "wfImage emptyImage \<and>
   (maxX (Bounds emptyImage) = 0 \<or> maxY (Bounds emptyImage) = 0) \<and>
   (\<exists>g. imageToGrayscale (Some emptyImage) = Some g \<and> Rect g = Bounds emptyImage \<and>
      wfGray g \<and> Pix g = []) \<and>
   wfGray emptyBuffer \<and> Pix emptyBuffer = [] \<and>
   (\<exists>ws. errorDiffusionDither emptyBuffer True = Some (emptyBuffer, ws))"
proof -
  have wi: "wfImage emptyImage" and z: "maxX (Bounds emptyImage) = 0"
    by (simp_all add: wfImage_def emptyImage_def)
  have wb: "wfGray emptyBuffer" and e: "Pix emptyBuffer = []"
    by (simp_all add: wfGray_def emptyBuffer_def)
  note th = core_operations_total[of emptyImage emptyBuffer True]
  from th wi z have 1: "\<exists>g. imageToGrayscale (Some emptyImage) = Some g \<and>
      Rect g = Bounds emptyImage \<and> wfGray g \<and> Pix g = []"
    by blast
  from th wb e have 2: "\<exists>ws. errorDiffusionDither emptyBuffer True = Some (emptyBuffer, ws)"
    by blast
  show ?thesis using wi z wb e 1 2 by simp
qed

end
